theory Spec2Isabelle
  imports Main "HOL-Library.Sublist" "HOL-Library.AList" "HOL-Library.Word"
begin

section \<open>Strings\<close>

text \<open>
  Python strings are modelled as \<^typ>\<open>string\<close>, one \<^typ>\<open>char\<close> per code point, so the
  model covers the strings whose code points are below 256. On that range
  \<^verbatim>\<open>str.strip()\<close> removes the characters for which \<^verbatim>\<open>str.isspace\<close> holds
  (TAB, LF, VT, FF, CR, FS, GS, RS, US, SPACE, NEL, NBSP) from both ends, and
  \<^verbatim>\<open>str.lower()\<close> maps A..Z and the upper-case letters U+00C0..U+00DE (without the
  multiplication sign U+00D7) to the code point 32 above.
\<close>

definition is_space :: "char \<Rightarrow> bool" where
  "is_space c = ((of_char c :: nat) \<in> {9, 10, 11, 12, 13, 28, 29, 30, 31, 32, 133, 160})"

definition lower_char :: "char \<Rightarrow> char" where
  "lower_char c =
     (let n = (of_char c :: nat)
      in if (65 \<le> n \<and> n \<le> 90) \<or> (192 \<le> n \<and> n \<le> 222 \<and> n \<noteq> 215)
         then char_of (n + 32) else c)"

definition lower :: "string \<Rightarrow> string" where
  "lower s = map lower_char s"

definition strip :: "string \<Rightarrow> string" where
  "strip s = rev (dropWhile is_space (rev (dropWhile is_space s)))"

text \<open>\<^verbatim>\<open>name in lower\<close> on two strings: \<open>name\<close> occurs in \<open>lower\<close> as a contiguous piece.\<close>

definition py_in :: "string \<Rightarrow> string \<Rightarrow> bool" where
  "py_in name s = sublist name s"

text \<open>\<^verbatim>\<open>sep.join(xs)\<close>.\<close>

fun str_join :: "string \<Rightarrow> string list \<Rightarrow> string" where
  "str_join sep [] = []"
| "str_join sep [x] = x"
| "str_join sep (x # y # ys) = x @ sep @ str_join sep (y # ys)"

text \<open>\<^verbatim>\<open>str(n)\<close> for an integer, as the f-strings of the summary use it.\<close>

fun str_nat :: "nat \<Rightarrow> string" where
  "str_nat n = (if n < 10 then [char_of (48 + n)]
                else str_nat (n div 10) @ [char_of (48 + n mod 10)])"

definition str_int :: "int \<Rightarrow> string" where
  "str_int i = (if i < 0 then CHR ''-'' # str_nat (nat (- i)) else str_nat (nat i))"

section \<open>Exceptions, dictionaries, lists\<close>

datatype py_error = ValueError | TypeError | KeyError | IndexError | ExpatError

text \<open>
  A \<^verbatim>\<open>dict\<close> keeps its keys in the order of their first insertion, and a second write to
  a key replaces the value in place: an association list updated with
  \<^const>\<open>AList.update\<close>. \<^verbatim>\<open>d[k]\<close> raises \<^verbatim>\<open>KeyError\<close> on a missing key and
  \<^verbatim>\<open>xs[i]\<close> raises \<^verbatim>\<open>IndexError\<close> out of range.
\<close>

type_synonym ('k, 'v) dict = "('k \<times> 'v) list"

definition dict_contains :: "('k, 'v) dict \<Rightarrow> 'k \<Rightarrow> bool" where
  "dict_contains d k = (map_of d k \<noteq> None)"

definition dict_getitem :: "('k, 'v) dict \<Rightarrow> 'k \<Rightarrow> py_error + 'v" where
  "dict_getitem d k = (case map_of d k of None \<Rightarrow> Inl KeyError | Some v \<Rightarrow> Inr v)"

definition list_getitem :: "'a list \<Rightarrow> nat \<Rightarrow> py_error + 'a" where
  "list_getitem xs i = (if i < length xs then Inr (xs ! i) else Inl IndexError)"

section \<open>Column Resolver: \<^verbatim>\<open>find_column\<close>\<close>

datatype field = Timestamp | Latitude | Longitude | Elevation

fun POSSIBLE_HEADERS :: "field \<Rightarrow> string list" where
  "POSSIBLE_HEADERS Timestamp =
     [''timestamp'', ''time'', ''time_utc'', ''datetime'', ''date_time'', ''gpstime'', ''utc_time'']"
| "POSSIBLE_HEADERS Latitude =
     [''latitude'', ''lat'', ''lat_deg'', ''lat_dd'', ''latitude_deg'']"
| "POSSIBLE_HEADERS Longitude =
     [''longitude'', ''lon'', ''long'', ''lng'', ''lon_deg'', ''lon_dd'', ''longitude_deg'']"
| "POSSIBLE_HEADERS Elevation =
     [''elevation'', ''altitude'', ''alt'', ''height'', ''elev'', ''alt_m'']"

text \<open>
  \<^verbatim>\<open>lower_to_original = {h.strip().lower(): h for h in fieldnames if h}\<close>: the headers
  are written into the dictionary from left to right, the empty ones left out.
\<close>

definition header_key :: "string \<Rightarrow> string" where
  "header_key h = lower (strip h)"

definition lower_to_original :: "string list \<Rightarrow> (string, string) dict" where
  "lower_to_original fieldnames =
     foldl (\<lambda>d h. AList.update (header_key h) h d) [] (filter (\<lambda>h. h \<noteq> []) fieldnames)"

text \<open>
  The two loops of \<^verbatim>\<open>find_column\<close>. \<open>Inr (Some h)\<close> is \<^verbatim>\<open>return h\<close>, \<open>Inr None\<close> is a loop
  that ended without a return, \<open>Inl e\<close> is an exception that leaves the function.
\<close>

fun exact_pass :: "(string, string) dict \<Rightarrow> string list \<Rightarrow> py_error + string option" where
  "exact_pass d [] = Inr None"
| "exact_pass d (name # names) =
     (if dict_contains d name then map_sum id Some (dict_getitem d name)
      else exact_pass d names)"

text \<open>
  \<^verbatim>\<open>candidates = [orig for lower, orig in lower_to_original.items() if name in lower]\<close>,
  then \<^verbatim>\<open>candidates.sort(key=len)\<close> (a stable sort, as \<^const>\<open>sort_key\<close> is) and
  \<^verbatim>\<open>candidates[0]\<close>.
\<close>

definition candidates :: "(string, string) dict \<Rightarrow> string \<Rightarrow> string list" where
  "candidates d name = [orig. (low, orig) \<leftarrow> d, py_in name low]"

fun substring_pass :: "(string, string) dict \<Rightarrow> string list \<Rightarrow> py_error + string option" where
  "substring_pass d [] = Inr None"
| "substring_pass d (name # names) =
     (if candidates d name \<noteq> []
      then map_sum id Some (list_getitem (sort_key length (candidates d name)) 0)
      else substring_pass d names)"

text \<open>
  \<open>fieldnames\<close> is \<open>None\<close> for Python's \<^verbatim>\<open>None\<close> (a file without a header row);
  the result \<open>Inr None\<close> is \<^verbatim>\<open>return None\<close>.
\<close>

definition find_column :: "string list option \<Rightarrow> string list \<Rightarrow> py_error + string option" where
  "find_column fieldnames possible_names =
     (case fieldnames of
        None \<Rightarrow> Inr None
      | Some [] \<Rightarrow> Inr None
      | Some hs \<Rightarrow>
          (let d = lower_to_original hs
           in case exact_pass d possible_names of
                Inl e \<Rightarrow> Inl e
              | Inr (Some h) \<Rightarrow> Inr (Some h)
              | Inr None \<Rightarrow> substring_pass d possible_names))"

text \<open>
  The four calls at the head of \<^verbatim>\<open>csv_to_kml\<close> and of \<^verbatim>\<open>process_csv\<close>, for an alias
  table \<open>tbl\<close>: the results for timestamp, latitude, longitude and elevation.
\<close>

definition detect_columns ::
  "(field \<Rightarrow> string list) \<Rightarrow> string list option
     \<Rightarrow> py_error + (string option \<times> string option \<times> string option \<times> string option)" where
  "detect_columns tbl fieldnames =
     (case find_column fieldnames (tbl Timestamp) of Inl e \<Rightarrow> Inl e | Inr ts \<Rightarrow>
      (case find_column fieldnames (tbl Latitude) of Inl e \<Rightarrow> Inl e | Inr lat \<Rightarrow>
       (case find_column fieldnames (tbl Longitude) of Inl e \<Rightarrow> Inl e | Inr lon \<Rightarrow>
        (case find_column fieldnames (tbl Elevation) of Inl e \<Rightarrow> Inl e | Inr ele \<Rightarrow>
           Inr (ts, lat, lon, ele)))))"

section \<open>Floating-point values\<close>

text \<open>
  A Python \<^verbatim>\<open>float\<close> is an IEEE 754 binary64 value: a sign bit, eleven exponent bits
  and fifty-two fraction bits. The comparison \<open>==\<close> is the IEEE one: a NaN equals
  nothing, the two zeros equal each other, and every other value equals only itself.
\<close>

datatype float64 = Float64 (f_sign: bool) (f_expo: "11 word") (f_frac: "52 word")

definition is_nan :: "float64 \<Rightarrow> bool" where
  "is_nan x = (f_expo x = 2047 \<and> f_frac x \<noteq> 0)"

definition is_zero :: "float64 \<Rightarrow> bool" where
  "is_zero x = (f_expo x = 0 \<and> f_frac x = 0)"

definition is_finite :: "float64 \<Rightarrow> bool" where
  "is_finite x = (f_expo x \<noteq> 2047)"

definition float_eq :: "float64 \<Rightarrow> float64 \<Rightarrow> bool" where
  "float_eq x y = (\<not> is_nan x \<and> \<not> is_nan y \<and> ((is_zero x \<and> is_zero y) \<or> x = y))"

text \<open>The literal \<^verbatim>\<open>0.0\<close>.\<close>

definition zero_float :: float64 where
  "zero_float = Float64 False 0 0"

section \<open>Track Builder: the row loop\<close>

text \<open>
  A row of \<^verbatim>\<open>csv.DictReader\<close> maps a header to its cell; \<^verbatim>\<open>row.get(col)\<close> is
  \<^verbatim>\<open>None\<close> for a header the row does not have and for a cell a short line left out.
  \<open>row_get row col\<close> is \<^verbatim>\<open>(row.get(col) or "")\<close>.
\<close>

type_synonym row = "string \<rightharpoonup> string"

definition row_get :: "row \<Rightarrow> string \<Rightarrow> string" where
  "row_get row col = (case row col of None \<Rightarrow> [] | Some v \<Rightarrow> v)"

text \<open>
  An element of \<^verbatim>\<open>xml.etree.ElementTree\<close>: tag, attributes, text, children.
  \<^verbatim>\<open>SubElement(track, t)\<close> appends a child to \<open>track\<close>.
\<close>

datatype element =
  Element (el_tag: string) (el_attrib: "(string \<times> string) list") (el_text: "string option")
    (el_children: "element list")

record columns =
  ts_col :: string
  lat_col :: string
  lon_col :: string
  ele_col :: string

text \<open>The variables the loop updates; \<open>track\<close> holds the children of \<^verbatim>\<open>gx:Track\<close>.\<close>

record run_state =
  track :: "element list"
  rows_written :: int
  rows_skipped :: int
  rows_invalid_coords :: int
  total_rows :: int

definition init_state :: run_state where
  "init_state = \<lparr>track = [], rows_written = 0, rows_skipped = 0, rows_invalid_coords = 0,
                  total_rows = 0\<rparr>"

text \<open>
  The body of the \<^verbatim>\<open>try\<close> block. \<open>py_float\<close> stands for the built-in \<^verbatim>\<open>float\<close> on a
  string (\<open>None\<close> is the \<^verbatim>\<open>ValueError\<close> it raises on a text that is no number) and
  \<open>py_str\<close> for the conversion the f-string applies to a float. \<open>Inr\<close> is a row
  that reached \<^verbatim>\<open>continue\<close> or the end of the block, \<open>Inl\<close> an exception.
\<close>

definition row_try ::
  "(string \<Rightarrow> float64 option) \<Rightarrow> (float64 \<Rightarrow> string) \<Rightarrow> columns \<Rightarrow> run_state \<Rightarrow> row
     \<Rightarrow> py_error + run_state" where
  "row_try py_float py_str c st row =
     (let ts_val = strip (row_get row (ts_col c));
          lat_s = strip (row_get row (lat_col c));
          lon_s = strip (row_get row (lon_col c));
          ele_s = strip (row_get row (ele_col c))
      in if ts_val = [] then Inr (st\<lparr>rows_skipped := rows_skipped st + 1\<rparr>)
         else
          (case py_float lat_s of None \<Rightarrow> Inl ValueError | Some lat \<Rightarrow>
           (case py_float lon_s of None \<Rightarrow> Inl ValueError | Some lon \<Rightarrow>
            (case py_float ele_s of None \<Rightarrow> Inl ValueError | Some ele \<Rightarrow>
               if float_eq lat zero_float \<or> float_eq lon zero_float
               then Inr (st\<lparr>rows_invalid_coords := rows_invalid_coords st + 1\<rparr>)
               else Inr (st\<lparr>track := track st @
                                [Element ''when'' [] (Some ts_val) [],
                                 Element ''gx:coord'' []
                                   (Some (py_str lon @ '' '' @ py_str lat @ '' '' @ py_str ele)) []],
                              rows_written := rows_written st + 1\<rparr>)))))"

text \<open>
  One turn of \<^verbatim>\<open>for row in reader\<close>: count the row, run the \<^verbatim>\<open>try\<close> block, and
  handle \<^verbatim>\<open>except (ValueError, TypeError, KeyError)\<close>; any other exception leaves
  the loop.
\<close>

definition process_row ::
  "(string \<Rightarrow> float64 option) \<Rightarrow> (float64 \<Rightarrow> string) \<Rightarrow> columns \<Rightarrow> run_state \<Rightarrow> row
     \<Rightarrow> py_error + run_state" where
  "process_row py_float py_str c st row =
     (let st1 = st\<lparr>total_rows := total_rows st + 1\<rparr>
      in case row_try py_float py_str c st1 row of
           Inr st2 \<Rightarrow> Inr st2
         | Inl e \<Rightarrow>
             if e = ValueError \<or> e = TypeError \<or> e = KeyError
             then Inr (st1\<lparr>rows_skipped := rows_skipped st1 + 1\<rparr>)
             else Inl e)"

fun row_loop ::
  "(string \<Rightarrow> float64 option) \<Rightarrow> (float64 \<Rightarrow> string) \<Rightarrow> columns \<Rightarrow> run_state \<Rightarrow> row list
     \<Rightarrow> py_error + run_state" where
  "row_loop py_float py_str c st [] = Inr st"
| "row_loop py_float py_str c st (row # rows) =
     (case process_row py_float py_str c st row of
        Inl e \<Rightarrow> Inl e
      | Inr st' \<Rightarrow> row_loop py_float py_str c st' rows)"

section \<open>The two conversion functions\<close>

text \<open>
  The tree handed to the serializer: \<open>pm_prefix\<close> is \<^verbatim>\<open>"UAS - "\<close> in
  \<^verbatim>\<open>csv_to_kml.py\<close> and \<^verbatim>\<open>"Flight Path - "\<close> in \<^verbatim>\<open>csv-to-kml_iphone.py\<close>.
\<close>

definition kml_document :: "string \<Rightarrow> string \<Rightarrow> element list \<Rightarrow> element" where
  "kml_document pm_prefix input_basename trk =
     Element ''kml''
       [(''xmlns'', ''http://www.opengis.net/kml/2.2''),
        (''xmlns:gx'', ''http://www.google.com/kml/ext/2.2'')] None
       [Element ''Document'' [] None
          [Element ''name'' [] (Some (''Drone Flight Track - '' @ input_basename)) [],
           Element ''Placemark'' [] None
             [Element ''name'' [] (Some (pm_prefix @ input_basename)) [],
              Element ''gx:Track'' [] None trk]]]"

text \<open>
  \<^verbatim>\<open>minidom.parseString(tostring(kml, 'utf-8'))\<close>. The tree is written as XML and read
  back into a DOM. The parser raises \<^verbatim>\<open>ExpatError\<close> when a text or an attribute value
  holds a character that XML 1.0 forbids (below U+0020 only TAB, LF and CR are allowed),
  and it hands over a text with every CR LF pair and every single CR turned into LF;
  the escaping that \<^verbatim>\<open>tostring\<close> applies is undone by the parser. An element with a
  non-empty text gets one text node in front of its element children. The model covers
  trees whose tags and attribute names are XML names and whose elements have no tail,
  as \<open>kml_document\<close> builds them.
\<close>

datatype dom = TextNode string | ElementNode string "(string \<times> string) list" "dom list"

definition xml_char :: "char \<Rightarrow> bool" where
  "xml_char c = (let n = (of_char c :: nat) in n = 9 \<or> n = 10 \<or> n = 13 \<or> 32 \<le> n)"

fun normalize_newlines :: "string \<Rightarrow> string" where
  "normalize_newlines [] = []"
| "normalize_newlines [c] = [if c = CHR 0x0D then CHR 0x0A else c]"
| "normalize_newlines (c # d # cs) =
     (if c = CHR 0x0D \<and> d = CHR 0x0A then CHR 0x0A # normalize_newlines cs
      else if c = CHR 0x0D then CHR 0x0A # normalize_newlines (d # cs)
      else c # normalize_newlines (d # cs))"

fun xml_legal :: "element \<Rightarrow> bool" where
  "xml_legal (Element t a x cs) =
     (list_all (\<lambda>kv. list_all xml_char (snd kv)) a
      \<and> (case x of None \<Rightarrow> True | Some s \<Rightarrow> list_all xml_char s)
      \<and> list_all xml_legal cs)"

fun to_dom :: "element \<Rightarrow> dom" where
  "to_dom (Element t a x cs) =
     ElementNode t a
       ((case x of None \<Rightarrow> []
         | Some s \<Rightarrow> if s = [] then [] else [TextNode (normalize_newlines s)])
        @ map to_dom cs)"

definition parseString_tostring :: "element \<Rightarrow> py_error + dom" where
  "parseString_tostring e = (if xml_legal e then Inr (to_dom e) else Inl ExpatError)"

text \<open>
  \<^verbatim>\<open>reparsed.toprettyxml(indent="  ")\<close>: \<^verbatim>\<open>Document.writexml\<close> writes the declaration
  and then \<^verbatim>\<open>Element.writexml\<close> with an empty indent, the given step and \<^verbatim>\<open>"\n"\<close>.
  An element whose only child is a text node is written on one line. \<open>py_write_data\<close>
  stands for minidom's \<^verbatim>\<open>_write_data\<close>, the escaping of a text (\<open>False\<close>) or of an
  attribute value (\<open>True\<close>).
\<close>

fun single_text :: "dom list \<Rightarrow> string option" where
  "single_text [TextNode d] = Some d"
| "single_text _ = None"

fun writexml :: "(bool \<Rightarrow> string \<Rightarrow> string) \<Rightarrow> dom \<Rightarrow> string \<Rightarrow> string \<Rightarrow> string \<Rightarrow> string" where
  "writexml py_write_data (TextNode d) indent addindent newl =
     py_write_data False (indent @ d @ newl)"
| "writexml py_write_data (ElementNode t a cs) indent addindent newl =
     indent @ ''<'' @ t
     @ concat (map (\<lambda>kv. '' '' @ fst kv @ ''='' @ [CHR 0x22] @ py_write_data True (snd kv)
                            @ [CHR 0x22]) a)
     @ (if cs \<noteq> []
        then ''>''
             @ (case single_text cs of
                  Some d \<Rightarrow> py_write_data False d
                | None \<Rightarrow>
                    newl
                    @ concat (map (\<lambda>n. writexml py_write_data n (indent @ addindent) addindent newl)
                                cs)
                    @ indent)
             @ ''</'' @ t @ ''>'' @ newl
        else ''/>'' @ newl)"

definition toprettyxml :: "(bool \<Rightarrow> string \<Rightarrow> string) \<Rightarrow> string \<Rightarrow> dom \<Rightarrow> string" where
  "toprettyxml py_write_data indent d =
     ''<?xml version='' @ [CHR 0x22] @ ''1.0'' @ [CHR 0x22] @ '' ?>'' @ [CHR 0x0A]
     @ writexml py_write_data d [] indent [CHR 0x0A]"

text \<open>
  Lines 121 to 124 of \<^verbatim>\<open>csv_to_kml.py\<close> (102 to 105 of the other file): the text that
  is written to the output file, or the exception of the parser.
\<close>

definition serialize :: "(bool \<Rightarrow> string \<Rightarrow> string) \<Rightarrow> element \<Rightarrow> py_error + string" where
  "serialize py_write_data kml =
     (case parseString_tostring kml of
        Inl e \<Rightarrow> Inl e
      | Inr reparsed \<Rightarrow> Inr (toprettyxml py_write_data ''  '' reparsed))"

text \<open>
  \<^verbatim>\<open>all([ts_col, lat_col, lon_col, ele_col])\<close>: every entry is a non-empty string.
\<close>

fun all_columns ::
  "string option \<times> string option \<times> string option \<times> string option \<Rightarrow> columns option" where
  "all_columns (Some ts, Some lat, Some lon, Some ele) =
     (if ts \<noteq> [] \<and> lat \<noteq> [] \<and> lon \<noteq> [] \<and> ele \<noteq> []
      then Some \<lparr>ts_col = ts, lat_col = lat, lon_col = lon, ele_col = ele\<rparr> else None)"
| "all_columns _ = None"

text \<open>
  \<^verbatim>\<open>print_detected_columns\<close>, one string per \<^verbatim>\<open>print\<close> call. \<open>py_repr\<close> stands for
  the built-in \<^verbatim>\<open>repr\<close> on \<^verbatim>\<open>None\<close> or a string.
\<close>

definition print_detected_columns ::
  "(string option \<Rightarrow> string) \<Rightarrow> string list option
     \<Rightarrow> string option \<Rightarrow> string option \<Rightarrow> string option \<Rightarrow> string option \<Rightarrow> string list" where
  "print_detected_columns py_repr fieldnames ts lat lon ele =
     [''Available CSV headers:'',
      (case fieldnames of
         None \<Rightarrow> ''  (no headers detected)''
       | Some [] \<Rightarrow> ''  (no headers detected)''
       | Some hs \<Rightarrow> ''  '' @ str_join '', '' (map (\<lambda>h. [CHR 0x27] @ h @ [CHR 0x27]) hs)),
      ''Detected columns:'',
      ''  timestamp -> '' @ py_repr ts,
      ''  latitude  -> '' @ py_repr lat,
      ''  longitude -> '' @ py_repr lon,
      ''  elevation -> '' @ py_repr ele]"

text \<open>
  \<^verbatim>\<open>csv_to_kml\<close> of \<^verbatim>\<open>csv_to_kml.py\<close>, on a file already read: \<open>fieldnames\<close> and
  \<open>rows\<close> are what \<^verbatim>\<open>csv.DictReader\<close> yields and \<open>input_basename\<close> is the input's
  name without directory and extension. The result is what was printed, and either
  \<^verbatim>\<open>sys.exit(1)\<close> or the text that is written into \<open>kml_file\<close>. An exception
  of the parser ends the run before the summary is printed; reading the input and
  opening the output are not part of the model.
\<close>

datatype cli_outcome = SysExit int | Written string

definition summary_lines :: "string \<Rightarrow> run_state \<Rightarrow> string list" where
  "summary_lines kml_file st =
     [[CHR 0x0A] @ ''Finished writing KML to: '' @ kml_file,
      ''Rows processed: '' @ str_int (total_rows st),
      ''  Rows written: '' @ str_int (rows_written st),
      ''  Rows skipped (invalid/missing data): '' @ str_int (rows_skipped st),
      ''  Rows skipped due to invalid coordinates (0.0): '' @ str_int (rows_invalid_coords st)]
     @ (if rows_written st = 0
        then [''Warning: no valid rows were written to KML. Check your CSV and detected columns above.'']
        else [])"

definition csv_to_kml ::
  "(string \<Rightarrow> float64 option) \<Rightarrow> (float64 \<Rightarrow> string) \<Rightarrow> (string option \<Rightarrow> string)
     \<Rightarrow> (bool \<Rightarrow> string \<Rightarrow> string) \<Rightarrow> string \<Rightarrow> string \<Rightarrow> string list option \<Rightarrow> row list
     \<Rightarrow> py_error + (string list \<times> cli_outcome)" where
  "csv_to_kml py_float py_str py_repr py_write_data input_basename kml_file fieldnames rows =
     (case detect_columns POSSIBLE_HEADERS fieldnames of
        Inl e \<Rightarrow> Inl e
      | Inr (ts, lat, lon, ele) \<Rightarrow>
          (let out = print_detected_columns py_repr fieldnames ts lat lon ele
           in case all_columns (ts, lat, lon, ele) of
                None \<Rightarrow>
                  Inr (out @ [[CHR 0x0A] @
                         ''Error: Could not detect all required columns in CSV. Aborting.''],
                       SysExit 1)
              | Some c \<Rightarrow>
                  (case row_loop py_float py_str c init_state rows of
                     Inl e \<Rightarrow> Inl e
                   | Inr st \<Rightarrow>
                       (case serialize py_write_data
                               (kml_document ''UAS - '' input_basename (track st)) of
                          Inl e \<Rightarrow> Inl e
                        | Inr xml \<Rightarrow> Inr (out @ summary_lines kml_file st, Written xml)))))"

text \<open>
  \<^verbatim>\<open>process_csv\<close> of \<^verbatim>\<open>csv-to-kml_iphone.py\<close>: \<open>csv_basename\<close> is the input's name
  without directory, \<open>output_file\<close> the path of the KML file. The result is the
  returned log and, when a file is written, its text.
\<close>

definition log_lines :: "string \<Rightarrow> run_state \<Rightarrow> string list" where
  "log_lines output_file st =
     [''Saved KML: '' @ output_file,
      ''Rows processed: '' @ str_int (total_rows st),
      ''  Rows written: '' @ str_int (rows_written st),
      ''  Rows skipped (invalid/missing data): '' @ str_int (rows_skipped st),
      ''  Rows skipped due to invalid coordinates (0.0): '' @ str_int (rows_invalid_coords st)]"

definition process_csv ::
  "(string \<Rightarrow> float64 option) \<Rightarrow> (float64 \<Rightarrow> string) \<Rightarrow> (string option \<Rightarrow> string)
     \<Rightarrow> (bool \<Rightarrow> string \<Rightarrow> string) \<Rightarrow> string \<Rightarrow> string \<Rightarrow> string \<Rightarrow> string list option
     \<Rightarrow> row list \<Rightarrow> py_error + (string \<times> string option)" where
  "process_csv py_float py_str py_repr py_write_data csv_basename input_basename output_file
     fieldnames rows =
     (case detect_columns POSSIBLE_HEADERS fieldnames of
        Inl e \<Rightarrow> Inl e
      | Inr (ts, lat, lon, ele) \<Rightarrow>
          (let log = [''Processing: '' @ csv_basename,
                      ''Detected columns:'',
                      ''  timestamp -> '' @ py_repr ts,
                      ''  latitude  -> '' @ py_repr lat,
                      ''  longitude -> '' @ py_repr lon,
                      ''  elevation -> '' @ py_repr ele]
           in case all_columns (ts, lat, lon, ele) of
                None \<Rightarrow>
                  Inr (str_join [CHR 0x0A]
                         (log @ [''Error: Could not detect all required columns. Skipping.'']),
                       None)
              | Some c \<Rightarrow>
                  (case row_loop py_float py_str c init_state rows of
                     Inl e \<Rightarrow> Inl e
                   | Inr st \<Rightarrow>
                       (case serialize py_write_data
                               (kml_document ''Flight Path - '' input_basename (track st)) of
                          Inl e \<Rightarrow> Inl e
                        | Inr xml \<Rightarrow>
                            Inr (str_join [CHR 0x0A] (log @ log_lines output_file st),
                                 Some xml)))))"

section \<open>Sample values of the built-in conversions\<close>

text \<open>
  The theorems below hold for every \<open>py_float\<close>, \<open>py_str\<close>, \<open>py_repr\<close> and
  \<open>py_write_data\<close>. To run the model on concrete rows, these tables list what CPython's
  \<^verbatim>\<open>float\<close>, \<^verbatim>\<open>str\<close> and \<^verbatim>\<open>repr\<close> give on a few literals: \<^verbatim>\<open>float("12.3")\<close> is the double
  \<^verbatim>\<open>0x402899999999999A\<close>, \<^verbatim>\<open>float("abc")\<close> raises \<^verbatim>\<open>ValueError\<close>.
  Outside the tables the sample functions say nothing about Python.
\<close>

definition nan_float :: float64 where
  "nan_float = Float64 False 2047 0x8000000000000"

definition inf_float :: float64 where
  "inf_float = Float64 False 2047 0"

definition neg_inf_float :: float64 where
  "neg_inf_float = Float64 True 2047 0"

definition sample_float :: "string \<Rightarrow> float64 option" where
  "sample_float = map_of
     [(''0.0'', Float64 False 0 0),
      (''-0.0'', Float64 True 0 0),
      (''1.0'', Float64 False 1023 0),
      (''2.0'', Float64 False 1024 0),
      (''3.0'', Float64 False 1024 0x8000000000000),
      (''12.3'', Float64 False 1026 0x899999999999A),
      (''100'', Float64 False 1029 0x9000000000000),
      (''nan'', nan_float),
      (''inf'', inf_float),
      (''-inf'', neg_inf_float)]"

definition sample_str :: "float64 \<Rightarrow> string" where
  "sample_str x =
     (case map_of
        [(Float64 False 0 0, ''0.0''),
         (Float64 True 0 0, ''-0.0''),
         (Float64 False 1023 0, ''1.0''),
         (Float64 False 1024 0, ''2.0''),
         (Float64 False 1024 0x8000000000000, ''3.0''),
         (Float64 False 1026 0x899999999999A, ''12.3''),
         (Float64 False 1029 0x9000000000000, ''100.0''),
         (nan_float, ''nan''),
         (inf_float, ''inf''),
         (neg_inf_float, ''-inf'')] x of
        Some s \<Rightarrow> s
      | None \<Rightarrow> [])"

text \<open>\<^verbatim>\<open>repr\<close> of \<^verbatim>\<open>None\<close> and of a string of letters, digits, spaces and underscores.\<close>

definition sample_repr :: "string option \<Rightarrow> string" where
  "sample_repr x = (case x of None \<Rightarrow> ''None'' | Some s \<Rightarrow> [CHR 0x27] @ s @ [CHR 0x27])"

text \<open>
  \<^verbatim>\<open>_write_data\<close> on a text or attribute value without \<^verbatim>\<open>&\<close>, \<^verbatim>\<open><\<close>, \<^verbatim>\<open>>\<close>,
  quotation mark, TAB, LF and CR: it is written as it is.
\<close>

definition sample_write_data :: "bool \<Rightarrow> string \<Rightarrow> string" where
  "sample_write_data attr s = s"

definition sample_columns :: columns where
  "sample_columns = \<lparr>ts_col = ''timestamp'', lat_col = ''latitude'',
                      lon_col = ''longitude'', ele_col = ''elevation''\<rparr>"

definition sample_row :: "string \<Rightarrow> string \<Rightarrow> string \<Rightarrow> string \<Rightarrow> row" where
  "sample_row ts lat lon ele =
     map_of [(''timestamp'', ts), (''latitude'', lat), (''longitude'', lon), (''elevation'', ele)]"

text \<open>Five rows: scenarios 3, 4 and 5 of the specification, a valid row, a non-finite row.\<close>

definition sample_rows :: "row list" where
  "sample_rows =
     [sample_row ''2025-01-01T00:00:00Z'' ''0.0'' ''12.3'' ''100'',
      sample_row [] ''1.0'' ''2.0'' ''3.0'',
      sample_row ''t1'' ''abc'' ''2.0'' ''3.0'',
      sample_row '' t2 '' ''1.0'' ''12.3'' ''100'',
      sample_row ''t3'' ''nan'' ''inf'' ''-inf'']"

section \<open>The specification's wording, for comparison\<close>

text \<open>
  Section 4.1, step 3, as the specification words it: among the index entries whose key
  contains the alias, the original header whose lower-cased key is shortest (the first
  such entry on equal length).
\<close>

definition spec_shortest_key_pick :: "(string, string) dict \<Rightarrow> string \<Rightarrow> string option" where
  "spec_shortest_key_pick d name =
     (case sort_key (\<lambda>(low, orig). length low) (filter (\<lambda>(low, orig). py_in name low) d) of
        [] \<Rightarrow> None
      | (low, orig) # _ \<Rightarrow> Some orig)"

text \<open>
  Section 4.2, steps 1 to 5: a row is written when its trimmed timestamp is not empty,
  its three cells parse, and neither latitude nor longitude equals 0.0; the point is the
  trimmed timestamp with longitude, latitude and elevation. Section 6: the track holds,
  for every written row in input order, one \<^verbatim>\<open>when\<close> element followed by one
  \<^verbatim>\<open>gx:coord\<close> element with the text \<^verbatim>\<open><lon> <lat> <ele>\<close>.
\<close>

definition spec_point ::
  "(string \<Rightarrow> float64 option) \<Rightarrow> columns \<Rightarrow> row
     \<Rightarrow> (string \<times> float64 \<times> float64 \<times> float64) option" where
  "spec_point py_float c row =
     (if strip (row_get row (ts_col c)) = [] then None
      else case (py_float (strip (row_get row (lat_col c))),
                 py_float (strip (row_get row (lon_col c))),
                 py_float (strip (row_get row (ele_col c)))) of
             (Some lat, Some lon, Some ele) \<Rightarrow>
               if float_eq lat zero_float \<or> float_eq lon zero_float then None
               else Some (strip (row_get row (ts_col c)), lon, lat, ele)
           | _ \<Rightarrow> None)"

definition spec_track ::
  "(string \<Rightarrow> float64 option) \<Rightarrow> (float64 \<Rightarrow> string) \<Rightarrow> columns \<Rightarrow> row list
     \<Rightarrow> element list" where
  "spec_track py_float py_str c rows =
     concat (map (\<lambda>row. case spec_point py_float c row of
                          None \<Rightarrow> []
                        | Some (ts, lon, lat, ele) \<Rightarrow>
                            [Element ''when'' [] (Some ts) [],
                             Element ''gx:coord'' []
                               (Some (py_str lon @ '' '' @ py_str lat @ '' '' @ py_str ele)) []])
                 rows)"

text \<open>
  Section 6: the output file. The declaration, the root \<^verbatim>\<open>kml\<close> with its two
  namespaces, one \<^verbatim>\<open>Document\<close> with its \<^verbatim>\<open>name\<close>, one \<^verbatim>\<open>Placemark\<close> with its
  \<^verbatim>\<open>name\<close> and the \<^verbatim>\<open>gx:Track\<close>, indented by two spaces for each level; in the
  track, for every written row in input order, a line with the \<^verbatim>\<open>when\<close> element
  followed by a line with the \<^verbatim>\<open>gx:coord\<close> element. A text is written the way an XML
  parser reads it back (line ends as LF) and escaped by the writer.
\<close>

definition spec_points ::
  "(string \<Rightarrow> float64 option) \<Rightarrow> columns \<Rightarrow> row list
     \<Rightarrow> (string \<times> float64 \<times> float64 \<times> float64) list" where
  "spec_points py_float c rows = List.map_filter (spec_point py_float c) rows"


definition spec_kml_text ::
  "(bool \<Rightarrow> string \<Rightarrow> string) \<Rightarrow> string \<Rightarrow> string \<Rightarrow> string \<Rightarrow> string" where
  "spec_kml_text py_write_data doc_name pm_name point_lines =
     ''<?xml version='' @ [CHR 0x22] @ ''1.0'' @ [CHR 0x22] @ '' ?>'' @ [CHR 0x0A]
     @ ''<kml xmlns='' @ [CHR 0x22]
     @ py_write_data True ''http://www.opengis.net/kml/2.2'' @ [CHR 0x22]
     @ '' xmlns:gx='' @ [CHR 0x22]
     @ py_write_data True ''http://www.google.com/kml/ext/2.2'' @ [CHR 0x22]
     @ ''>'' @ [CHR 0x0A]
     @ ''  <Document>'' @ [CHR 0x0A]
     @ ''    <name>'' @ py_write_data False (normalize_newlines doc_name) @ ''</name>''
     @ [CHR 0x0A]
     @ ''    <Placemark>'' @ [CHR 0x0A]
     @ ''      <name>'' @ py_write_data False (normalize_newlines pm_name) @ ''</name>''
     @ [CHR 0x0A]
     @ (if point_lines = [] then ''      <gx:Track/>'' @ [CHR 0x0A]
        else ''      <gx:Track>'' @ [CHR 0x0A] @ point_lines @ ''      </gx:Track>''
             @ [CHR 0x0A])
     @ ''    </Placemark>'' @ [CHR 0x0A]
     @ ''  </Document>'' @ [CHR 0x0A]
     @ ''</kml>'' @ [CHR 0x0A]"


section \<open>Lemmas: the index\<close>

lemma find_filter: "find Q (filter P xs) = find (\<lambda>x. P x \<and> Q x) xs"
  by (induction xs) auto

lemma find_SomeD: "find P xs = Some x \<Longrightarrow> P x \<and> x \<in> set xs"
  by (induction xs) (auto split: if_splits)

lemma foldl_update_lookup:
  "map_of (foldl (\<lambda>d h. AList.update (f h) h d) d0 xs) k =
     (case find (\<lambda>h. f h = k) (rev xs) of None \<Rightarrow> map_of d0 k | Some h \<Rightarrow> Some h)"
  by (induction xs rule: rev_induct) (auto simp: update_conv')

lemma foldl_update_keys:
  "map fst (foldl (\<lambda>d h. AList.update (f h) h d) [] xs) = rev (remdups (rev (map f xs)))"
  by (induction xs rule: rev_induct) (auto simp: update_keys)

lemma index_lookup:
  "map_of (lower_to_original hs) k = find (\<lambda>h. h \<noteq> [] \<and> header_key h = k) (rev hs)"
  by (simp add: lower_to_original_def foldl_update_lookup rev_filter find_filter
      split: option.splits)

lemma index_keys:
  "map fst (lower_to_original hs) =
     rev (remdups (rev (map (\<lambda>h. header_key h) (filter (\<lambda>h. h \<noteq> []) hs))))"
  by (simp add: lower_to_original_def foldl_update_keys)

lemma index_distinct: "distinct (map fst (lower_to_original hs))"
  by (simp add: index_keys)

lemma index_key_set:
  "fst ` set (lower_to_original hs) = (\<lambda>h. header_key h) ` {h \<in> set hs. h \<noteq> []}"
proof -
  have "fst ` set (lower_to_original hs) = set (map fst (lower_to_original hs))" by simp
  also have "\<dots> = (\<lambda>h. header_key h) ` {h \<in> set hs. h \<noteq> []}"
    unfolding index_keys by auto
  finally show ?thesis .
qed

lemma index_entry:
  "(k, h) \<in> set (lower_to_original hs) \<longleftrightarrow>
     find (\<lambda>x. x \<noteq> [] \<and> header_key x = k) (rev hs) = Some h"
  using index_distinct [of hs] index_lookup [of hs k] by (metis map_of_eq_Some_iff)

lemma dict_contains_iff: "dict_contains d k \<longleftrightarrow> k \<in> fst ` set d"
  by (simp add: dict_contains_def map_of_eq_None_iff)

lemma dict_contains_index:
  "dict_contains (lower_to_original hs) = (\<lambda>n. n \<in> header_key ` {x \<in> set hs. x \<noteq> []})"
  by (rule ext) (simp add: dict_contains_iff index_key_set)

lemma header_key_Nil: "header_key [] = []"
  by (simp add: header_key_def lower_def strip_def)

lemma POSSIBLE_HEADERS_nonempty: "[] \<notin> set (POSSIBLE_HEADERS fld)"
  by (cases fld) simp_all

section \<open>Lemmas: the two passes\<close>

lemma exact_pass_eq:
  "exact_pass d names =
     Inr (case find (dict_contains d) names of None \<Rightarrow> None | Some n \<Rightarrow> map_of d n)"
  by (induction names) (auto simp: dict_contains_def dict_getitem_def)

lemma hd_sort_key:
  assumes "xs \<noteq> []"
  shows "hd (sort_key f xs) \<in> set xs"
    and "\<forall>y \<in> set xs. f (hd (sort_key f xs)) \<le> f y"
    and "find (\<lambda>y. f y = f (hd (sort_key f xs))) xs = Some (hd (sort_key f xs))"
proof -
  from assms have "sort_key f xs \<noteq> []"
    by (metis length_0_conv length_sort)
  then obtain x rest where xr: "sort_key f xs = x # rest"
    by (cases "sort_key f xs") auto
  have "sorted (map f (sort_key f xs))" by (rule sorted_sort_key)
  with xr have le: "\<forall>y \<in> set rest. f x \<le> f y" by auto
  have s: "set xs = insert x (set rest)"
    using xr by (metis list.simps(15) set_sort)
  have "filter (\<lambda>y. f y = f x) xs = filter (\<lambda>y. f y = f x) (sort_key f xs)"
    by (rule sort_key_stable [symmetric])
  also have "\<dots> = x # filter (\<lambda>y. f y = f x) rest" using xr by simp
  finally have fl: "filter (\<lambda>y. f y = f x) xs = x # filter (\<lambda>y. f y = f x) rest" .
  have fd: "find (\<lambda>y. f y = f x) xs = Some x"
    using fl by (induction xs) (auto split: if_splits)
  show "hd (sort_key f xs) \<in> set xs" using xr s by simp
  show "\<forall>y \<in> set xs. f (hd (sort_key f xs)) \<le> f y" using xr s le by simp
  show "find (\<lambda>y. f y = f (hd (sort_key f xs))) xs = Some (hd (sort_key f xs))"
    using xr fd by simp
qed

lemma list_getitem_0: "xs \<noteq> [] \<Longrightarrow> list_getitem xs 0 = Inr (hd xs)"
  by (cases xs) (auto simp: list_getitem_def)

lemma substring_pass_eq:
  "substring_pass d names =
     Inr (case find (\<lambda>n. candidates d n \<noteq> []) names of
            None \<Rightarrow> None
          | Some n \<Rightarrow> Some (hd (sort_key length (candidates d n))))"
proof (induction names)
  case Nil
  show ?case by simp
next
  case (Cons n names)
  show ?case
  proof (cases "candidates d n = []")
    case True
    with Cons show ?thesis by simp
  next
    case False
    then have "sort_key length (candidates d n) \<noteq> []"
      by (metis length_0_conv length_sort)
    with False show ?thesis by (simp add: list_getitem_0)
  qed
qed

lemma candidates_iff:
  "c \<in> set (candidates d n) \<longleftrightarrow> (\<exists>k. (k, c) \<in> set d \<and> py_in n k)"
  by (auto simp: candidates_def)

lemma candidates_empty_iff:
  "candidates d n = [] \<longleftrightarrow> (\<forall>k \<in> fst ` set d. \<not> py_in n k)"
  by (induction d) (auto simp: candidates_def)

lemma find_column_nonempty:
  "hs \<noteq> [] \<Longrightarrow> find_column (Some hs) names =
     (case exact_pass (lower_to_original hs) names of
        Inl e \<Rightarrow> Inl e
      | Inr (Some h) \<Rightarrow> Inr (Some h)
      | Inr None \<Rightarrow> substring_pass (lower_to_original hs) names)"
  by (cases hs) (auto simp: find_column_def Let_def)

lemma find_column_Some:
  "find_column (Some hs) names =
     Inr (case find (dict_contains (lower_to_original hs)) names of
            Some n \<Rightarrow> map_of (lower_to_original hs) n
          | None \<Rightarrow>
             (case find (\<lambda>n. candidates (lower_to_original hs) n \<noteq> []) names of
                None \<Rightarrow> None
              | Some n \<Rightarrow> Some (hd (sort_key length (candidates (lower_to_original hs) n)))))"
proof (cases hs)
  case Nil
  have e: "lower_to_original hs = []" using Nil by (simp add: lower_to_original_def)
  have f1: "find (dict_contains []) names = None"
    by (simp add: find_None_iff dict_contains_def)
  have f2: "find (\<lambda>n. candidates [] n \<noteq> []) names = None"
    by (simp add: find_None_iff candidates_def)
  have l: "find_column (Some hs) names = Inr None"
    using Nil by (simp add: find_column_def)
  show ?thesis unfolding l e f1 f2 by simp
next
  case (Cons h rest)
  then have ne: "hs \<noteq> []" by simp
  note u = find_column_nonempty [OF ne, of names]
  show ?thesis
  proof (cases "find (dict_contains (lower_to_original hs)) names")
    case None
    then show ?thesis
      unfolding u by (simp add: exact_pass_eq substring_pass_eq)
  next
    case (Some n)
    then have "dict_contains (lower_to_original hs) n" by (auto simp: find_Some_iff)
    then obtain r where "map_of (lower_to_original hs) n = Some r"
      by (auto simp: dict_contains_def)
    with Some show ?thesis
      unfolding u by (simp add: exact_pass_eq)
  qed
qed

lemma find_column_total: "\<exists>res. find_column fieldnames names = Inr res"
proof (cases fieldnames)
  case None
  then show ?thesis by (simp add: find_column_def)
next
  case (Some hs)
  then show ?thesis by (simp add: find_column_Some)
qed



lemma exact_match_result:
  assumes "h \<in> set hs" "h \<noteq> []" "header_key h \<in> set names"
  shows "\<exists>r. find_column (Some hs) names = Inr (Some r) \<and> r \<in> set hs \<and>
           find (\<lambda>n. n \<in> header_key ` {x \<in> set hs. x \<noteq> []}) names = Some (header_key r)"
proof -
  let ?d = "lower_to_original hs"
  note dc = dict_contains_index [of hs]
  from assms have "dict_contains ?d (header_key h)"
    unfolding dc by blast
  with assms(3) have "find (dict_contains ?d) names \<noteq> None"
    by (auto simp: find_None_iff)
  then obtain n where n: "find (dict_contains ?d) names = Some n" by auto
  then have "dict_contains ?d n" by (auto simp: find_Some_iff)
  then obtain r where r: "map_of ?d n = Some r" by (auto simp: dict_contains_def)
  with n have fc: "find_column (Some hs) names = Inr (Some r)"
    by (simp add: find_column_Some)
  from r have "find (\<lambda>x. x \<noteq> [] \<and> header_key x = n) (rev hs) = Some r"
    by (simp add: index_lookup)
  then have "r \<in> set hs" "header_key r = n"
    by (auto dest: find_SomeD)
  with fc n dc show ?thesis by auto
qed

section \<open>Lemmas: the row loop\<close>

lemma process_row_cases:
  "process_row pf ps c st row =
     Inr (if strip (row_get row (ts_col c)) = []
          then st\<lparr>total_rows := total_rows st + 1, rows_skipped := rows_skipped st + 1\<rparr>
          else case pf (strip (row_get row (lat_col c))) of
                 None \<Rightarrow> st\<lparr>total_rows := total_rows st + 1, rows_skipped := rows_skipped st + 1\<rparr>
               | Some lat \<Rightarrow>
                  (case pf (strip (row_get row (lon_col c))) of
                     None \<Rightarrow> st\<lparr>total_rows := total_rows st + 1, rows_skipped := rows_skipped st + 1\<rparr>
                   | Some lon \<Rightarrow>
                      (case pf (strip (row_get row (ele_col c))) of
                         None \<Rightarrow> st\<lparr>total_rows := total_rows st + 1, rows_skipped := rows_skipped st + 1\<rparr>
                       | Some ele \<Rightarrow>
                           if float_eq lat zero_float \<or> float_eq lon zero_float
                           then st\<lparr>total_rows := total_rows st + 1,
                                   rows_invalid_coords := rows_invalid_coords st + 1\<rparr>
                           else st\<lparr>total_rows := total_rows st + 1,
                                   track := track st @
                                     [Element ''when'' [] (Some (strip (row_get row (ts_col c)))) [],
                                      Element ''gx:coord'' []
                                        (Some (ps lon @ '' '' @ ps lat @ '' '' @ ps ele)) []],
                                   rows_written := rows_written st + 1\<rparr>)))"
  by (simp add: process_row_def row_try_def Let_def split: option.splits)

lemma process_row_total: "\<exists>st'. process_row pf ps c st row = Inr st'"
  by (simp add: process_row_cases)

lemma process_row_counts:
  assumes "process_row pf ps c st row = Inr st'"
  shows "total_rows st' = total_rows st + 1 \<and>
     ((rows_written st' = rows_written st + 1 \<and> rows_skipped st' = rows_skipped st
         \<and> rows_invalid_coords st' = rows_invalid_coords st) \<or>
      (rows_written st' = rows_written st \<and> rows_skipped st' = rows_skipped st + 1
         \<and> rows_invalid_coords st' = rows_invalid_coords st) \<or>
      (rows_written st' = rows_written st \<and> rows_skipped st' = rows_skipped st
         \<and> rows_invalid_coords st' = rows_invalid_coords st + 1))"
  using assms by (auto simp: process_row_cases split: option.splits if_splits)

lemma row_loop_counts:
  "\<exists>fin. row_loop pf ps c st rows = Inr fin \<and>
     total_rows fin = total_rows st + int (length rows) \<and>
     rows_written fin + rows_skipped fin + rows_invalid_coords fin - total_rows fin =
       rows_written st + rows_skipped st + rows_invalid_coords st - total_rows st"
proof (induction rows arbitrary: st)
  case Nil
  show ?case by simp
next
  case (Cons row rows)
  obtain st1 where s1: "process_row pf ps c st row = Inr st1"
    using process_row_total by blast
  from Cons.IH [of st1] obtain fin where
    f: "row_loop pf ps c st1 rows = Inr fin"
       "total_rows fin = total_rows st1 + int (length rows)"
       "rows_written fin + rows_skipped fin + rows_invalid_coords fin - total_rows fin =
          rows_written st1 + rows_skipped st1 + rows_invalid_coords st1 - total_rows st1"
    by blast
  from process_row_counts [OF s1] f s1 show ?case by auto
qed

lemma row_loop_total: "\<exists>fin. row_loop pf ps c st rows = Inr fin"
  using row_loop_counts [of pf ps c st rows] by blast

lemma non_finite_not_zero: "\<not> is_finite x \<Longrightarrow> \<not> float_eq x zero_float"
  by (cases x) (auto simp: is_finite_def float_eq_def is_zero_def zero_float_def)

lemma process_row_track:
  "\<exists>st'. process_row pf ps c st row = Inr st' \<and>
     track st' = track st @ spec_track pf ps c [row] \<and>
     rows_written st' = rows_written st + (if spec_point pf c row = None then 0 else 1)"
  by (auto simp: process_row_cases spec_track_def spec_point_def split: option.splits)

lemma row_loop_track:
  "\<exists>fin. row_loop pf ps c st rows = Inr fin \<and>
     track fin = track st @ spec_track pf ps c rows \<and>
     rows_written fin =
       rows_written st + int (length (filter (\<lambda>row. spec_point pf c row \<noteq> None) rows))"
proof (induction rows arbitrary: st)
  case Nil
  show ?case by (simp add: spec_track_def)
next
  case (Cons row rows)
  from process_row_track [of pf ps c st row] obtain st1 where
    s1: "process_row pf ps c st row = Inr st1"
        "track st1 = track st @ spec_track pf ps c [row]"
        "rows_written st1 = rows_written st + (if spec_point pf c row = None then 0 else 1)"
    by blast
  from Cons.IH [of st1] obtain fin where
    f: "row_loop pf ps c st1 rows = Inr fin"
       "track fin = track st1 @ spec_track pf ps c rows"
       "rows_written fin =
          rows_written st1 + int (length (filter (\<lambda>row. spec_point pf c row \<noteq> None) rows))"
    by blast
  have "spec_track pf ps c (row # rows) = spec_track pf ps c [row] @ spec_track pf ps c rows"
    by (simp add: spec_track_def)
  with s1 f show ?case by auto
qed

section \<open>Lemmas: the output file\<close>

lemma legal_fixed_texts:
  "list_all xml_char ''http://www.opengis.net/kml/2.2''"
  "list_all xml_char ''http://www.google.com/kml/ext/2.2''"
  "list_all xml_char ''Drone Flight Track - ''"
  "list_all xml_char ''UAS - ''"
  "list_all xml_char ''Flight Path - ''"
  by code_simp+

lemma xml_legal_kml_document:
  "list_all xml_char pfx \<Longrightarrow>
   xml_legal (kml_document pfx b trk) \<longleftrightarrow> list_all xml_char b \<and> list_all xml_legal trk"
  by (auto simp: kml_document_def xml_char_def)

lemma single_text_to_dom: "single_text (map to_dom trk) = None"
proof (cases trk)
  case Nil
  then show ?thesis by simp
next
  case (Cons e es)
  then show ?thesis by (cases e) simp
qed

lemma writexml_element_nonempty: "writexml wd (to_dom e) indent addindent newl \<noteq> []"
  by (cases e) simp

lemma track_body_empty:
  "concat (map (\<lambda>e. writexml wd (to_dom e) indent addindent newl) trk) = [] \<longleftrightarrow> trk = []"
  by (cases trk) (simp_all add: writexml_element_nonempty)

lemma serialize_kml_document:
  assumes "pfx \<noteq> []" and "list_all xml_char pfx"
  shows "serialize wd (kml_document pfx b trk) =
     (if list_all xml_char b \<and> list_all xml_legal trk
      then Inr (spec_kml_text wd (''Drone Flight Track - '' @ b) (pfx @ b)
                  (concat (map (\<lambda>e. writexml wd (to_dom e) ''        '' ''  '' [CHR 0x0A]) trk)))
      else Inl ExpatError)"
proof (cases "list_all xml_char b \<and> list_all xml_legal trk")
  case False
  with assms(2) have "\<not> xml_legal (kml_document pfx b trk)"
    by (simp add: xml_legal_kml_document)
  with False show ?thesis
    by (simp add: serialize_def parseString_tostring_def)
next
  case True
  with assms(2) have l: "xml_legal (kml_document pfx b trk)"
    by (simp add: xml_legal_kml_document)
  have d: "to_dom (kml_document pfx b trk) =
     ElementNode ''kml''
       [(''xmlns'', ''http://www.opengis.net/kml/2.2''),
        (''xmlns:gx'', ''http://www.google.com/kml/ext/2.2'')]
       [ElementNode ''Document'' []
          [ElementNode ''name'' [] [TextNode (normalize_newlines (''Drone Flight Track - '' @ b))],
           ElementNode ''Placemark'' []
             [ElementNode ''name'' [] [TextNode (normalize_newlines (pfx @ b))],
              ElementNode ''gx:Track'' [] (map to_dom trk)]]]"
    using assms(1) by (simp add: kml_document_def)
  show ?thesis
  proof (cases "trk = []")
    case True
    with l \<open>list_all xml_char b \<and> list_all xml_legal trk\<close> show ?thesis
      unfolding serialize_def parseString_tostring_def d
      by (simp add: toprettyxml_def spec_kml_text_def)
  next
    case False
    then have ne: "concat (map (\<lambda>e. writexml wd (to_dom e) ''        '' ''  '' [CHR 0x0A]) trk) \<noteq> []"
      using track_body_empty [of wd "''        ''" "''  ''" "[CHR 0x0A]" trk] by blast
    from False l ne \<open>list_all xml_char b \<and> list_all xml_legal trk\<close> show ?thesis
      unfolding serialize_def parseString_tostring_def d
      by (simp add: toprettyxml_def spec_kml_text_def single_text_to_dom comp_def
          del: concat_eq_Nil_conv)
  qed
qed






lemma spec_points_length:
  "length (spec_points pf c rows) = length (filter (\<lambda>row. spec_point pf c row \<noteq> None) rows)"
  by (simp add: spec_points_def map_filter_def)



lemma csv_to_kml_zero_rows_warning:
  assumes "detect_columns POSSIBLE_HEADERS fieldnames = Inr cols"
      and "all_columns cols = Some c"
      and "\<forall>row \<in> set rows. spec_point pf c row = None"
      and "list_all xml_char input_basename"
  shows "\<exists>out xml. csv_to_kml pf ps pr wd input_basename kml_file fieldnames rows
                     = Inr (out, Written xml)
           \<and> last out =
             ''Warning: no valid rows were written to KML. Check your CSV and detected columns above.''"
proof -
  from row_loop_track [of pf ps c init_state rows] obtain fin where
    f: "row_loop pf ps c init_state rows = Inr fin"
       "track fin = spec_track pf ps c rows"
       "rows_written fin =
          rows_written init_state
            + int (length (filter (\<lambda>row. spec_point pf c row \<noteq> None) rows))"
    by (auto simp: init_state_def)
  from assms(3) have "filter (\<lambda>row. spec_point pf c row \<noteq> None) rows = []"
    by (simp add: filter_empty_conv)
  with f(3) have z: "rows_written fin = 0" by (simp add: init_state_def)
  from assms(3) have t: "track fin = []" by (simp add: f(2) spec_track_def)
  have a: "''UAS - '' \<noteq> []" by simp
  from assms(4) obtain xml where
    ser: "serialize wd (kml_document ''UAS - '' input_basename (track fin)) = Inr xml"
    by (simp add: t serialize_kml_document [OF a legal_fixed_texts(4)])
  obtain ts lat lon ele where cols: "cols = (ts, lat, lon, ele)" by (cases cols) auto
  with assms(1,2) f(1) z ser show ?thesis
    by (simp add: csv_to_kml_def Let_def summary_lines_def)
qed

section \<open>The claims\<close>

text \<open>
  Claim C1. The loops of \<^verbatim>\<open>csv_to_kml\<close> and \<^verbatim>\<open>process_csv\<close> are the same text. Every
  turn of the loop returns, adds one to \<open>total_rows\<close>, and adds one to exactly one of
  \<open>rows_written\<close>, \<open>rows_skipped\<close> and \<open>rows_invalid_coords\<close>, leaving the other two as
  they were. After all rows the three counters add up to \<open>total_rows\<close>, which is the
  number of rows.
\<close>

theorem counters_partition_rows:
  "(\<exists>st'. process_row pf ps c st row = Inr st' \<and> total_rows st' = total_rows st + 1 \<and>
      ((rows_written st' = rows_written st + 1 \<and> rows_skipped st' = rows_skipped st
          \<and> rows_invalid_coords st' = rows_invalid_coords st) \<or>
       (rows_written st' = rows_written st \<and> rows_skipped st' = rows_skipped st + 1
          \<and> rows_invalid_coords st' = rows_invalid_coords st) \<or>
       (rows_written st' = rows_written st \<and> rows_skipped st' = rows_skipped st
          \<and> rows_invalid_coords st' = rows_invalid_coords st + 1)))
   \<and> (\<exists>fin. row_loop pf ps c init_state rows = Inr fin \<and>
         rows_written fin + rows_skipped fin + rows_invalid_coords fin = total_rows fin \<and>
         total_rows fin = int (length rows))"
proof
  obtain st' where s: "process_row pf ps c st row = Inr st'"
    using process_row_total by blast
  with process_row_counts [OF s] show "\<exists>st'. process_row pf ps c st row = Inr st' \<and>
      total_rows st' = total_rows st + 1 \<and>
      ((rows_written st' = rows_written st + 1 \<and> rows_skipped st' = rows_skipped st
          \<and> rows_invalid_coords st' = rows_invalid_coords st) \<or>
       (rows_written st' = rows_written st \<and> rows_skipped st' = rows_skipped st + 1
          \<and> rows_invalid_coords st' = rows_invalid_coords st) \<or>
       (rows_written st' = rows_written st \<and> rows_skipped st' = rows_skipped st
          \<and> rows_invalid_coords st' = rows_invalid_coords st + 1))"
    by blast
next
  from row_loop_counts [of pf ps c init_state rows]
  show "\<exists>fin. row_loop pf ps c init_state rows = Inr fin \<and>
         rows_written fin + rows_skipped fin + rows_invalid_coords fin = total_rows fin \<and>
         total_rows fin = int (length rows)"
    by (auto simp: init_state_def)
qed

theorem counters_partition_rows_witness:
  "\<exists>fin. row_loop sample_float sample_str sample_columns init_state sample_rows = Inr fin \<and>
     rows_written fin + rows_skipped fin + rows_invalid_coords fin = total_rows fin \<and>
     total_rows fin = 5"
  using counters_partition_rows
    [where pf = sample_float and ps = sample_str and c = sample_columns and rows = sample_rows]
  by (simp add: sample_rows_def)

text \<open>
  Claim C2. When no alias equals an index key and \<open>a\<close> is the first alias that occurs
  in some key, \<^verbatim>\<open>find_column\<close> returns a header \<open>r\<close> of the index whose key contains
  \<open>a\<close>, and \<open>r\<close> is the first of the shortest candidates, where the length that is
  compared is the length of the original header (\<^verbatim>\<open>candidates.sort(key=len)\<close> sorts the
  originals), and the candidates stand in the order of the index.
\<close>

theorem substring_match_shortest_original:
  assumes "\<forall>n \<in> set names. \<forall>h \<in> set hs. h \<noteq> [] \<longrightarrow> header_key h \<noteq> n"
      and "find (\<lambda>n. \<exists>h \<in> set hs. h \<noteq> [] \<and> py_in n (header_key h)) names = Some a"
  shows "\<exists>r. find_column (Some hs) names = Inr (Some r)
          \<and> r \<in> set hs \<and> py_in a (header_key r)
          \<and> r \<in> set (candidates (lower_to_original hs) a)
          \<and> (\<forall>c \<in> set (candidates (lower_to_original hs) a). length r \<le> length c)
          \<and> find (\<lambda>c. length c = length r) (candidates (lower_to_original hs) a) = Some r"
proof -
  let ?d = "lower_to_original hs"
  let ?r = "hd (sort_key length (candidates ?d a))"
  have keys: "fst ` set ?d = header_key ` {x \<in> set hs. x \<noteq> []}" by (rule index_key_set)
  from assms(1) have "\<forall>n \<in> set names. n \<notin> header_key ` {x \<in> set hs. x \<noteq> []}"
    by blast
  then have e: "find (dict_contains ?d) names = None"
    by (simp add: find_None_iff dict_contains_iff keys)
  have p: "(\<lambda>n. candidates ?d n \<noteq> []) = (\<lambda>n. \<exists>h \<in> set hs. h \<noteq> [] \<and> py_in n (header_key h))"
    by (rule ext) (auto simp: candidates_empty_iff keys)
  from assms(2) have s: "find (\<lambda>n. candidates ?d n \<noteq> []) names = Some a"
    unfolding p .
  then have ne: "candidates ?d a \<noteq> []" by (auto simp: find_Some_iff)
  from e s have fc: "find_column (Some hs) names = Inr (Some ?r)"
    by (simp add: find_column_Some)
  note h = hd_sort_key [OF ne, of length]
  from h(1) obtain k where k: "(k, ?r) \<in> set ?d" "py_in a k"
    by (auto simp: candidates_iff)
  from k(1) have "find (\<lambda>x. x \<noteq> [] \<and> header_key x = k) (rev hs) = Some ?r"
    by (simp add: index_entry)
  then have "?r \<in> set hs" "header_key ?r = k"
    by (auto dest: find_SomeD)
  with fc h k(2) show ?thesis by blast
qed

theorem substring_match_shortest_original_witness:
  "find_column (Some [''  gps_lat  '', ''my_gps_lat'']) (POSSIBLE_HEADERS Latitude)
     = Inr (Some ''my_gps_lat'')
   \<and> ''my_gps_lat'' \<in> set (candidates (lower_to_original [''  gps_lat  '', ''my_gps_lat'']) ''lat'')
   \<and> find (\<lambda>c. length c = length ''my_gps_lat'')
        (candidates (lower_to_original [''  gps_lat  '', ''my_gps_lat'']) ''lat'')
     = Some ''my_gps_lat''"
proof -
  have h1: "\<forall>n \<in> set (POSSIBLE_HEADERS Latitude).
              \<forall>h \<in> set [''  gps_lat  '', ''my_gps_lat'']. h \<noteq> [] \<longrightarrow> header_key h \<noteq> n"
    by code_simp
  have h2: "find (\<lambda>n. \<exists>h \<in> set [''  gps_lat  '', ''my_gps_lat'']. h \<noteq> [] \<and> py_in n (header_key h))
              (POSSIBLE_HEADERS Latitude) = Some ''lat''"
    by code_simp
  have v: "find_column (Some [''  gps_lat  '', ''my_gps_lat'']) (POSSIBLE_HEADERS Latitude)
             = Inr (Some ''my_gps_lat'')"
    by code_simp
  from substring_match_shortest_original [OF h1 h2] v show ?thesis by auto
qed

text \<open>
  Claim C2 as the specification words it (the header whose lower-cased key is shortest)
  fails on the headers \<^verbatim>\<open>"  gps_lat  "\<close> and \<^verbatim>\<open>"my_gps_lat"\<close>: the key of the first is
  shorter, the original of the second is, and the second is returned.
\<close>

theorem shortest_key_counterexample:
  "find_column (Some [''  gps_lat  '', ''my_gps_lat'']) (POSSIBLE_HEADERS Latitude)
     = Inr (Some ''my_gps_lat'')
   \<and> lower_to_original [''  gps_lat  '', ''my_gps_lat'']
     = [(''gps_lat'', ''  gps_lat  ''), (''my_gps_lat'', ''my_gps_lat'')]
   \<and> exact_pass (lower_to_original [''  gps_lat  '', ''my_gps_lat'']) (POSSIBLE_HEADERS Latitude)
     = Inr None
   \<and> candidates (lower_to_original [''  gps_lat  '', ''my_gps_lat'']) ''latitude'' = []
   \<and> candidates (lower_to_original [''  gps_lat  '', ''my_gps_lat'']) ''lat''
     = [''  gps_lat  '', ''my_gps_lat'']
   \<and> spec_shortest_key_pick (lower_to_original [''  gps_lat  '', ''my_gps_lat'']) ''lat''
     = Some ''  gps_lat  ''
   \<and> length (header_key ''  gps_lat  '') < length (header_key ''my_gps_lat'')"
  by code_simp

text \<open>
  Claim C3. If some header's key equals an alias of the field, \<^verbatim>\<open>find_column\<close>
  returns a header of the list whose key is an alias, found by the first loop; the second
  loop plays no part, whatever other headers contain an alias. For every list \<open>hs'\<close> with
  the same headers in any order the result has the same key.
\<close>

theorem exact_match_wins:
  assumes "h \<in> set hs" and "header_key h \<in> set (POSSIBLE_HEADERS fld)"
  shows "\<exists>r. find_column (Some hs) (POSSIBLE_HEADERS fld) = Inr (Some r) \<and> r \<in> set hs \<and>
           header_key r \<in> set (POSSIBLE_HEADERS fld) \<and>
           exact_pass (lower_to_original hs) (POSSIBLE_HEADERS fld) = Inr (Some r) \<and>
           (\<forall>hs'. set hs' = set hs \<longrightarrow>
              (\<exists>r'. find_column (Some hs') (POSSIBLE_HEADERS fld) = Inr (Some r') \<and>
                    header_key r' = header_key r))"
proof -
  let ?names = "POSSIBLE_HEADERS fld"
  from assms(2) have ne: "h \<noteq> []"
    using POSSIBLE_HEADERS_nonempty [of fld] header_key_Nil by auto
  from exact_match_result [OF assms(1) ne assms(2)] obtain r where
    r: "find_column (Some hs) ?names = Inr (Some r)" "r \<in> set hs"
       "find (\<lambda>n. n \<in> header_key ` {x \<in> set hs. x \<noteq> []}) ?names = Some (header_key r)"
    by blast
  from r(3) have mem: "header_key r \<in> set ?names"
    by (auto dest: find_SomeD)
  from r(3) have "find (dict_contains (lower_to_original hs)) ?names = Some (header_key r)"
    by (simp add: dict_contains_index)
  with r(1) have ex: "exact_pass (lower_to_original hs) ?names = Inr (Some r)"
    by (simp add: find_column_Some exact_pass_eq)
  have perm: "\<exists>r'. find_column (Some hs') ?names = Inr (Some r') \<and> header_key r' = header_key r"
    if "set hs' = set hs" for hs'
  proof -
    from assms(1) that have "h \<in> set hs'" by simp
    from exact_match_result [OF this ne assms(2)] obtain r' where
      "find_column (Some hs') ?names = Inr (Some r')"
      "find (\<lambda>n. n \<in> header_key ` {x \<in> set hs'. x \<noteq> []}) ?names = Some (header_key r')"
      by blast
    with r(3) that show ?thesis by simp
  qed
  from r mem ex perm show ?thesis by blast
qed

theorem exact_match_wins_witness:
  "\<exists>r. find_column (Some [''gps_latitude_deg'', ''Lat'']) (POSSIBLE_HEADERS Latitude) = Inr (Some r)
        \<and> r \<in> set [''gps_latitude_deg'', ''Lat'']
        \<and> header_key r \<in> set (POSSIBLE_HEADERS Latitude)
        \<and> exact_pass (lower_to_original [''gps_latitude_deg'', ''Lat'']) (POSSIBLE_HEADERS Latitude)
            = Inr (Some r)
        \<and> (\<exists>r'. find_column (Some [''Lat'', ''gps_latitude_deg'']) (POSSIBLE_HEADERS Latitude)
                   = Inr (Some r') \<and> header_key r' = header_key r)"
proof -
  have h1: "''Lat'' \<in> set [''gps_latitude_deg'', ''Lat'']" by simp
  have h2: "header_key ''Lat'' \<in> set (POSSIBLE_HEADERS Latitude)" by code_simp
  have p: "set [''Lat'', ''gps_latitude_deg''] = set [''gps_latitude_deg'', ''Lat'']" by auto
  from exact_match_wins [OF h1 h2] p show ?thesis by blast
qed

text \<open>
  Claim C4. A turn of the loop adds one to \<open>rows_skipped\<close> exactly when the trimmed
  timestamp is empty or one of the three cells is no number. With an empty timestamp
  the outcome is the same for every \<open>py_float\<close>: no cell is parsed. After a skipped row
  the loop goes on with the remaining rows, and the loop returns for every row list.
\<close>

theorem skipped_missing_iff:
  "(\<exists>st'. process_row pf ps c st row = Inr st' \<and>
      (rows_skipped st' = rows_skipped st + 1 \<longleftrightarrow>
         strip (row_get row (ts_col c)) = [] \<or>
         pf (strip (row_get row (lat_col c))) = None \<or>
         pf (strip (row_get row (lon_col c))) = None \<or>
         pf (strip (row_get row (ele_col c))) = None))
   \<and> (strip (row_get row (ts_col c)) = [] \<longrightarrow>
        (\<forall>pf'. process_row pf' ps c st row =
           Inr (st\<lparr>total_rows := total_rows st + 1, rows_skipped := rows_skipped st + 1\<rparr>)))
   \<and> (strip (row_get row (ts_col c)) = [] \<or>
       pf (strip (row_get row (lat_col c))) = None \<or>
       pf (strip (row_get row (lon_col c))) = None \<or>
       pf (strip (row_get row (ele_col c))) = None \<longrightarrow>
        row_loop pf ps c st (row # rows) =
          row_loop pf ps c
            (st\<lparr>total_rows := total_rows st + 1, rows_skipped := rows_skipped st + 1\<rparr>) rows)
   \<and> (\<exists>fin. row_loop pf ps c st (row # rows) = Inr fin)"
proof (intro conjI)
  show "\<exists>st'. process_row pf ps c st row = Inr st' \<and>
      (rows_skipped st' = rows_skipped st + 1 \<longleftrightarrow>
         strip (row_get row (ts_col c)) = [] \<or>
         pf (strip (row_get row (lat_col c))) = None \<or>
         pf (strip (row_get row (lon_col c))) = None \<or>
         pf (strip (row_get row (ele_col c))) = None)"
    by (auto simp: process_row_cases split: option.splits)
  show "strip (row_get row (ts_col c)) = [] \<longrightarrow>
        (\<forall>pf'. process_row pf' ps c st row =
           Inr (st\<lparr>total_rows := total_rows st + 1, rows_skipped := rows_skipped st + 1\<rparr>))"
    by (simp add: process_row_cases)
  show "strip (row_get row (ts_col c)) = [] \<or>
       pf (strip (row_get row (lat_col c))) = None \<or>
       pf (strip (row_get row (lon_col c))) = None \<or>
       pf (strip (row_get row (ele_col c))) = None \<longrightarrow>
        row_loop pf ps c st (row # rows) =
          row_loop pf ps c
            (st\<lparr>total_rows := total_rows st + 1, rows_skipped := rows_skipped st + 1\<rparr>) rows"
    by (auto simp: process_row_cases split: option.splits)
  show "\<exists>fin. row_loop pf ps c st (row # rows) = Inr fin"
    by (rule row_loop_total)
qed

theorem skipped_missing_iff_witness:
  "sample_float (strip (row_get (sample_row ''t1'' ''abc'' ''2.0'' ''3.0'') (lat_col sample_columns)))
     = None
   \<and> row_loop sample_float sample_str sample_columns init_state
       (sample_row ''t1'' ''abc'' ''2.0'' ''3.0'' # sample_rows)
     = row_loop sample_float sample_str sample_columns
         (init_state\<lparr>total_rows := total_rows init_state + 1,
                      rows_skipped := rows_skipped init_state + 1\<rparr>) sample_rows
   \<and> strip (row_get (sample_row [] ''1.0'' ''2.0'' ''3.0'') (ts_col sample_columns)) = []
   \<and> process_row (\<lambda>s. None) sample_str sample_columns init_state (sample_row [] ''1.0'' ''2.0'' ''3.0'')
     = Inr (init_state\<lparr>total_rows := total_rows init_state + 1,
                        rows_skipped := rows_skipped init_state + 1\<rparr>)"
proof -
  have h1: "sample_float
              (strip (row_get (sample_row ''t1'' ''abc'' ''2.0'' ''3.0'') (lat_col sample_columns)))
            = None"
    by code_simp
  have h2: "strip (row_get (sample_row [] ''1.0'' ''2.0'' ''3.0'') (ts_col sample_columns)) = []"
    by code_simp
  from h1 skipped_missing_iff
    [where pf = sample_float and ps = sample_str and c = sample_columns and st = init_state
       and row = "sample_row ''t1'' ''abc'' ''2.0'' ''3.0''" and rows = sample_rows]
  have a: "row_loop sample_float sample_str sample_columns init_state
       (sample_row ''t1'' ''abc'' ''2.0'' ''3.0'' # sample_rows)
     = row_loop sample_float sample_str sample_columns
         (init_state\<lparr>total_rows := total_rows init_state + 1,
                      rows_skipped := rows_skipped init_state + 1\<rparr>) sample_rows"
    by blast
  from h2 skipped_missing_iff
    [where pf = sample_float and ps = sample_str and c = sample_columns and st = init_state
       and row = "sample_row [] ''1.0'' ''2.0'' ''3.0''" and rows = sample_rows]
  have b: "process_row (\<lambda>s. None) sample_str sample_columns init_state
             (sample_row [] ''1.0'' ''2.0'' ''3.0'')
     = Inr (init_state\<lparr>total_rows := total_rows init_state + 1,
                        rows_skipped := rows_skipped init_state + 1\<rparr>)"
    by blast
  from h1 h2 a b show ?thesis by blast
qed

text \<open>
  Claim C5. A row with a timestamp and three parsed cells, whose latitude or longitude
  equals 0.0, adds one to \<open>rows_invalid_coords\<close> and changes neither the track nor the
  other two counters, whatever the elevation is.
\<close>

theorem zero_coordinate_skipped:
  assumes "strip (row_get row (ts_col c)) \<noteq> []"
      and "pf (strip (row_get row (lat_col c))) = Some lat"
      and "pf (strip (row_get row (lon_col c))) = Some lon"
      and "pf (strip (row_get row (ele_col c))) = Some ele"
      and "float_eq lat zero_float \<or> float_eq lon zero_float"
  shows "process_row pf ps c st row =
           Inr (st\<lparr>total_rows := total_rows st + 1,
                   rows_invalid_coords := rows_invalid_coords st + 1\<rparr>)"
  using assms by (simp add: process_row_cases)

theorem zero_coordinate_skipped_witness:
  "process_row sample_float sample_str sample_columns init_state
     (sample_row ''2025-01-01T00:00:00Z'' ''0.0'' ''12.3'' ''0.0'')
   = Inr (init_state\<lparr>total_rows := total_rows init_state + 1,
                      rows_invalid_coords := rows_invalid_coords init_state + 1\<rparr>)"
proof -
  let ?row = "sample_row ''2025-01-01T00:00:00Z'' ''0.0'' ''12.3'' ''0.0''"
  have h1: "strip (row_get ?row (ts_col sample_columns)) \<noteq> []" by code_simp
  have h2: "sample_float (strip (row_get ?row (lat_col sample_columns))) = Some (Float64 False 0 0)"
    by code_simp
  have h3: "sample_float (strip (row_get ?row (lon_col sample_columns)))
              = Some (Float64 False 1026 0x899999999999A)"
    by code_simp
  have h4: "sample_float (strip (row_get ?row (ele_col sample_columns))) = Some (Float64 False 0 0)"
    by code_simp
  have h5: "float_eq (Float64 False 0 0) zero_float
              \<or> float_eq (Float64 False 1026 0x899999999999A) zero_float"
    by code_simp
  from zero_coordinate_skipped [OF h1 h2 h3 h4 h5] show ?thesis .
qed




text \<open>
  Claim C7. \<^verbatim>\<open>find_column\<close> returns for every header list and alias list. It returns
  \<^verbatim>\<open>None\<close> exactly when no alias occurs in the key of a non-empty header, so in
  particular for \<^verbatim>\<open>None\<close> and for the empty list; then all four columns are
  \<^verbatim>\<open>None\<close>.
\<close>

theorem find_column_never_raises:
  "(\<exists>res. find_column fieldnames names = Inr res)
   \<and> (find_column (Some hs) names = Inr None \<longleftrightarrow>
        (\<forall>n \<in> set names. \<forall>h \<in> set hs. h \<noteq> [] \<longrightarrow> \<not> py_in n (header_key h)))
   \<and> find_column None names = Inr None
   \<and> find_column (Some []) names = Inr None
   \<and> (\<exists>a. detect_columns tbl fieldnames = Inr a)
   \<and> detect_columns tbl None = Inr (None, None, None, None)
   \<and> detect_columns tbl (Some []) = Inr (None, None, None, None)"
proof -
  let ?d = "lower_to_original hs"
  have keys: "fst ` set ?d = header_key ` {x \<in> set hs. x \<noteq> []}" by (rule index_key_set)
  have a: "find_column (Some hs) names = Inr None \<longleftrightarrow>
        (\<forall>n \<in> set names. \<forall>h \<in> set hs. h \<noteq> [] \<longrightarrow> \<not> py_in n (header_key h))"
  proof
    assume l: "find_column (Some hs) names = Inr None"
    have e: "find (dict_contains ?d) names = None"
    proof (cases "find (dict_contains ?d) names")
      case (Some n)
      then have "dict_contains ?d n" by (auto simp: find_Some_iff)
      then obtain r where "map_of ?d n = Some r" by (auto simp: dict_contains_def)
      with Some l show ?thesis by (simp add: find_column_Some)
    qed simp
    with l have "find (\<lambda>n. candidates ?d n \<noteq> []) names = None"
      by (simp add: find_column_Some split: option.splits)
    then have "\<forall>n \<in> set names. \<forall>k \<in> fst ` set ?d. \<not> py_in n k"
      by (simp add: find_None_iff candidates_empty_iff)
    then show "\<forall>n \<in> set names. \<forall>h \<in> set hs. h \<noteq> [] \<longrightarrow> \<not> py_in n (header_key h)"
      unfolding keys by blast
  next
    assume r: "\<forall>n \<in> set names. \<forall>h \<in> set hs. h \<noteq> [] \<longrightarrow> \<not> py_in n (header_key h)"
    then have c: "\<forall>n \<in> set names. \<forall>k \<in> fst ` set ?d. \<not> py_in n k"
      unfolding keys by blast
    then have s: "find (\<lambda>n. candidates ?d n \<noteq> []) names = None"
      by (simp add: find_None_iff candidates_empty_iff)
    have "\<forall>n \<in> set names. \<not> dict_contains ?d n"
    proof
      fix n assume n: "n \<in> set names"
      show "\<not> dict_contains ?d n"
      proof
        assume "dict_contains ?d n"
        then have "n \<in> fst ` set ?d" by (simp add: dict_contains_iff)
        with c n have "\<not> py_in n n" by blast
        then show False by (simp add: py_in_def)
      qed
    qed
    then have "find (dict_contains ?d) names = None" by (simp add: find_None_iff)
    with s show "find_column (Some hs) names = Inr None" by (simp add: find_column_Some)
  qed
  have n: "find_column None ns = Inr None" for ns by (simp add: find_column_def)
  have e: "find_column (Some []) ns = Inr None" for ns by (simp add: find_column_def)
  have t: "\<exists>a. detect_columns tbl fieldnames = Inr a"
  proof -
    obtain r1 r2 r3 r4 where
      "find_column fieldnames (tbl Timestamp) = Inr r1"
      "find_column fieldnames (tbl Latitude) = Inr r2"
      "find_column fieldnames (tbl Longitude) = Inr r3"
      "find_column fieldnames (tbl Elevation) = Inr r4"
      using find_column_total by metis
    then show ?thesis by (simp add: detect_columns_def)
  qed
  from find_column_total [of fieldnames names] a n e t show ?thesis
    by (simp add: detect_columns_def)
qed

theorem find_column_never_raises_witness:
  "find_column (Some [''timestamp'', ''latitude'', ''longitude'']) (POSSIBLE_HEADERS Elevation)
     = Inr None
   \<and> (\<exists>res. find_column (Some [''Time (UTC)'', ''Lat'', ''Lon'', ''Alt_m''])
               (POSSIBLE_HEADERS Elevation) = Inr res)
   \<and> detect_columns POSSIBLE_HEADERS None = Inr (None, None, None, None)
   \<and> detect_columns POSSIBLE_HEADERS (Some []) = Inr (None, None, None, None)"
proof -
  have h: "\<forall>n \<in> set (POSSIBLE_HEADERS Elevation).
             \<forall>h \<in> set [''timestamp'', ''latitude'', ''longitude''].
               h \<noteq> [] \<longrightarrow> \<not> py_in n (header_key h)"
    by code_simp
  note t = find_column_never_raises
    [where hs = "[''timestamp'', ''latitude'', ''longitude'']" and names = "POSSIBLE_HEADERS Elevation"
       and fieldnames = "Some [''Time (UTC)'', ''Lat'', ''Lon'', ''Alt_m'']" and tbl = POSSIBLE_HEADERS]
  from t h show ?thesis by blast
qed



text \<open>
  Claim C9. On a file with all four columns and one row without timestamp,
  \<^verbatim>\<open>process_csv\<close> of \<^verbatim>\<open>csv-to-kml_iphone.py\<close> writes a file and returns a log with
  \<^verbatim>\<open>Rows written: 0\<close> and no warning, where \<^verbatim>\<open>csv_to_kml\<close> of \<^verbatim>\<open>csv_to_kml.py\<close>
  prints the warning as its last line.
\<close>

theorem process_csv_no_warning:
  "map_sum id (\<lambda>(log, kml). (py_in ''Warning'' log, py_in ''Rows written: 0'' log, kml \<noteq> None))
     (process_csv sample_float sample_str sample_repr sample_write_data ''flight.csv'' ''flight''
        ''out/flight.kml''
        (Some [''timestamp'', ''latitude'', ''longitude'', ''elevation''])
        [sample_row [] ''1.0'' ''2.0'' ''3.0''])
     = Inr (False, True, True)
   \<and> map_sum id (\<lambda>(out, res). last out)
     (csv_to_kml sample_float sample_str sample_repr sample_write_data ''flight'' ''out/flight.kml''
        (Some [''timestamp'', ''latitude'', ''longitude'', ''elevation''])
        [sample_row [] ''1.0'' ''2.0'' ''3.0''])
     = Inr ''Warning: no valid rows were written to KML. Check your CSV and detected columns above.''"
  by code_simp

text \<open>
  Claim C10. A row with a timestamp whose three cells parse to non-finite values
  (infinities or NaN) passes the test against 0.0 and is written: its \<^verbatim>\<open>when\<close> and
  \<^verbatim>\<open>gx:coord\<close> elements join the track and \<open>rows_written\<close> grows by one.
\<close>

theorem non_finite_row_written:
  assumes "strip (row_get row (ts_col c)) \<noteq> []"
      and "pf (strip (row_get row (lat_col c))) = Some lat"
      and "pf (strip (row_get row (lon_col c))) = Some lon"
      and "pf (strip (row_get row (ele_col c))) = Some ele"
      and "\<not> is_finite lat" and "\<not> is_finite lon" and "\<not> is_finite ele"
  shows "\<not> float_eq lat zero_float \<and> \<not> float_eq lon zero_float \<and>
         process_row pf ps c st row =
           Inr (st\<lparr>total_rows := total_rows st + 1,
                   track := track st @
                     [Element ''when'' [] (Some (strip (row_get row (ts_col c)))) [],
                      Element ''gx:coord'' []
                        (Some (ps lon @ '' '' @ ps lat @ '' '' @ ps ele)) []],
                   rows_written := rows_written st + 1\<rparr>)"
  using assms non_finite_not_zero [of lat] non_finite_not_zero [of lon]
  by (simp add: process_row_cases)

theorem non_finite_row_written_witness:
  "process_row sample_float sample_str sample_columns init_state
     (sample_row ''t3'' ''nan'' ''inf'' ''-inf'')
   = Inr (init_state\<lparr>total_rows := total_rows init_state + 1,
            track := track init_state @
              [Element ''when'' []
                 (Some (strip (row_get (sample_row ''t3'' ''nan'' ''inf'' ''-inf'')
                                 (ts_col sample_columns)))) [],
               Element ''gx:coord'' []
                 (Some (sample_str inf_float @ '' '' @ sample_str nan_float @ '' ''
                          @ sample_str neg_inf_float)) []],
            rows_written := rows_written init_state + 1\<rparr>)
   \<and> sample_str inf_float @ '' '' @ sample_str nan_float @ '' '' @ sample_str neg_inf_float
     = ''inf nan -inf''"
proof -
  let ?row = "sample_row ''t3'' ''nan'' ''inf'' ''-inf''"
  have h1: "strip (row_get ?row (ts_col sample_columns)) \<noteq> []" by code_simp
  have h2: "sample_float (strip (row_get ?row (lat_col sample_columns))) = Some nan_float"
    by code_simp
  have h3: "sample_float (strip (row_get ?row (lon_col sample_columns))) = Some inf_float"
    by code_simp
  have h4: "sample_float (strip (row_get ?row (ele_col sample_columns))) = Some neg_inf_float"
    by code_simp
  have h5: "\<not> is_finite nan_float" by code_simp
  have h6: "\<not> is_finite inf_float" by code_simp
  have h7: "\<not> is_finite neg_inf_float" by code_simp
  have s: "sample_str inf_float @ '' '' @ sample_str nan_float @ '' '' @ sample_str neg_inf_float
             = ''inf nan -inf''"
    by code_simp
  from non_finite_row_written [OF h1 h2 h3 h4 h5 h6 h7] s show ?thesis by blast
qed

end
